theory Spec2Isabelle
  imports Complex_Main "HOL-Library.Sublist"
begin

section \<open>Text\<close>

text \<open>
  Python text is modelled by \<open>string\<close>: a character is one of the code points below 256.
  On these, \<open>\d\<close> of the \<open>re\<close> module is the ten ASCII digits, \<open>.\<close> (without DOTALL) is
  every character but the line feed, and \<open>str.lower\<close> moves \<open>A\<close>..\<open>Z\<close> and the Latin-1
  capitals (192..222 without the multiplication sign 215) up by 32.
\<close>

definition is_digit :: "char \<Rightarrow> bool" where
  "is_digit c = (c \<in> set ''0123456789'')"

definition lower_char :: "char \<Rightarrow> char" where
  "lower_char c =
     (let n = (of_char c :: nat)
      in if (65 \<le> n \<and> n \<le> 90) \<or> (192 \<le> n \<and> n \<le> 222 \<and> n \<noteq> 215)
         then char_of (n + 32) else c)"

definition lower :: "string \<Rightarrow> string" where
  "lower s = map lower_char s"

text \<open>\<open>str.replace(",", "")\<close>: every comma is dropped.\<close>

definition strip_commas :: "string \<Rightarrow> string" where
  "strip_commas s = filter (\<lambda>c. c \<noteq> CHR '','') s"

section \<open>The regular expressions that \<open>PATTERN\<close> uses\<close>

datatype cclass = Digit | AnyChar

fun in_class :: "cclass \<Rightarrow> char \<Rightarrow> bool" where
  "in_class Digit c = is_digit c"
| "in_class AnyChar c = (c \<noteq> CHR 0x0A)"

datatype regex =
    Lit string              \<comment> \<open>literal text\<close>
  | One cclass              \<comment> \<open>\<open>\d\<close> or \<open>.\<close>\<close>
  | Star cclass             \<comment> \<open>greedy \<open>\d*\<close> or \<open>.*\<close>\<close>
  | Rep nat cclass          \<comment> \<open>\<open>\d{n}\<close>\<close>
  | Cat regex regex
  | Alt regex regex         \<comment> \<open>\<open>a|b\<close>, the left branch first\<close>
  | Group string regex      \<comment> \<open>\<open>(?P<name>...)\<close>\<close>

text \<open>
  The backtracking matcher of \<open>re\<close>, as the list of all ways a regex can match at the
  start of the text, in the order the engine tries them: a greedy star takes the longest
  run first and gives characters back one at a time, an alternation tries its left branch
  first. An outcome is the text left over and the groups captured so far (the latest
  capture of a name in front).
\<close>

type_synonym captures = "(string \<times> string) list"

fun starts_with :: "string \<Rightarrow> string \<Rightarrow> bool" where
  "starts_with [] s = True"
| "starts_with (x # xs) [] = False"
| "starts_with (x # xs) (y # ys) = (x = y \<and> starts_with xs ys)"

fun star_rests :: "cclass \<Rightarrow> string \<Rightarrow> string list" where
  "star_rests k [] = [[]]"
| "star_rests k (x # xs) = (if in_class k x then star_rests k xs @ [x # xs] else [x # xs])"

fun rep_rest :: "nat \<Rightarrow> cclass \<Rightarrow> string \<Rightarrow> string option" where
  "rep_rest 0 k s = Some s"
| "rep_rest (Suc n) k [] = None"
| "rep_rest (Suc n) k (x # xs) = (if in_class k x then rep_rest n k xs else None)"

fun run :: "regex \<Rightarrow> string \<Rightarrow> captures \<Rightarrow> (string \<times> captures) list" where
  "run (Lit l) s c = (if starts_with l s then [(drop (length l) s, c)] else [])"
| "run (One k) s c = (case s of [] \<Rightarrow> [] | x # xs \<Rightarrow> if in_class k x then [(xs, c)] else [])"
| "run (Star k) s c = map (\<lambda>r. (r, c)) (star_rests k s)"
| "run (Rep n k) s c = (case rep_rest n k s of None \<Rightarrow> [] | Some r \<Rightarrow> [(r, c)])"
| "run (Cat a b) s c = concat (map (\<lambda>(r, c'). run b r c') (run a s c))"
| "run (Alt a b) s c = run a s c @ run b s c"
| "run (Group n a) s c =
     map (\<lambda>(r, c'). (r, (n, take (length s - length r) s) # c')) (run a s c)"

text \<open>\<open>re.match\<close>: the first outcome, anchored at the start of the text only.\<close>

definition re_match :: "regex \<Rightarrow> string \<Rightarrow> captures option" where
  "re_match p s = (case run p s [] of [] \<Rightarrow> None | (r, c) # _ \<Rightarrow> Some c)"

fun group_names :: "regex \<Rightarrow> string list" where
  "group_names (Cat a b) = group_names a @ group_names b"
| "group_names (Alt a b) = group_names a @ group_names b"
| "group_names (Group n a) = n # group_names a"
| "group_names r = []"

text \<open>
  \<open>match.groupdict()\<close>: every named group of the pattern (\<open>re\<close> compiles no pattern
  that uses a name twice), with the text it captured, or \<open>None\<close> for a group that took
  no part in the match.
\<close>

definition groupdict :: "regex \<Rightarrow> captures \<Rightarrow> (string \<times> string option) list" where
  "groupdict p c = map (\<lambda>n. (n, map_of c n)) (group_names p)"

fun seq :: "regex list \<Rightarrow> regex" where
  "seq [] = Lit []"
| "seq [r] = r"
| "seq (r # rs) = Cat r (seq rs)"

text \<open>\<open>\d*\.\d{2}\<close>\<close>

definition price :: regex where
  "price = Cat (Star Digit) (Cat (Lit ''.'') (Rep 2 Digit))"

definition PATTERN :: regex where
  "PATTERN = seq
     [Lit ''The '', One Digit, Star AnyChar,
      Lit '' analysts offering 12-month price forecasts for '', Star AnyChar,
      Lit '' have a median target of '', Group ''median'' price,
      Lit '' with a high estimate of '', Group ''high'' price,
      Lit '' and a low estimate of '', Group ''low'' price,
      One AnyChar, Lit '' The median estimate represents a '', Star AnyChar,
      Lit ''% '', Alt (Lit ''in'') (Lit ''de''), Lit ''crease from the last price of '',
      Group ''current'' price, Lit ''.'']"

section \<open>Decimals\<close>

text \<open>
  A finite \<open>decimal.Decimal\<close>: sign, coefficient and exponent, standing for
  \<open>\<plusminus> coefficient * 10 ^ exponent\<close>.
\<close>

record decimal =
  dec_sign :: bool
  dec_coeff :: nat
  dec_exp :: int

definition dec_value :: "decimal \<Rightarrow> rat" where
  "dec_value d =
     (if dec_sign d then - 1 else 1) * of_nat (dec_coeff d) *
     (if 0 \<le> dec_exp d then 10 ^ nat (dec_exp d) else 1 / 10 ^ nat (- dec_exp d))"

definition digit_val :: "char \<Rightarrow> nat" where
  "digit_val c = of_char c - 48"

definition nat_of_digits :: "string \<Rightarrow> nat" where
  "nat_of_digits s = foldl (\<lambda>n c. 10 * n + digit_val c) 0 s"

text \<open>
  \<open>Decimal(str)\<close> on plain numerals: an optional sign, then digits with an optional
  point and fraction digits, or a point and fraction digits; the coefficient is the
  integer the digits spell and the exponent minus the number of fraction digits. The
  other texts the constructor reads (exponents, infinities, NaNs, blanks around the
  numeral, underscores) and the texts it rejects are outside this model: \<open>None\<close>.
\<close>

definition Decimal :: "string \<Rightarrow> decimal option" where
  "Decimal s =
     (let (neg, u) = (case s of
                        [] \<Rightarrow> (False, s)
                      | c # r \<Rightarrow> if c = CHR ''-'' then (True, r)
                                 else if c = CHR ''+'' then (False, r) else (False, s));
          ip = takeWhile (\<lambda>c. c \<noteq> CHR ''.'') u;
          fp = (case dropWhile (\<lambda>c. c \<noteq> CHR ''.'') u of [] \<Rightarrow> [] | _ # f \<Rightarrow> f)
      in if list_all is_digit ip \<and> list_all is_digit fp \<and> (ip \<noteq> [] \<or> fp \<noteq> [])
         then Some \<lparr>dec_sign = neg, dec_coeff = nat_of_digits (ip @ fp),
                    dec_exp = - int (length fp)\<rparr>
         else None)"

section \<open>Errors\<close>

text \<open>
  The three exception classes the program defines, each with its message, and
  \<open>LibraryError\<close> for an exception of a library (\<open>requests\<close>, \<open>decimal\<close>) that the
  program lets through.
\<close>

datatype error =
    InvalidSymbolError string
  | NetworkError string
  | ParsingError string
  | LibraryError string

datatype error_class = InvalidSymbolErrorClass | NetworkErrorClass | ParsingErrorClass | LibraryClass

fun class_of :: "error \<Rightarrow> error_class" where
  "class_of (InvalidSymbolError m) = InvalidSymbolErrorClass"
| "class_of (NetworkError m) = NetworkErrorClass"
| "class_of (ParsingError m) = ParsingErrorClass"
| "class_of (LibraryError m) = LibraryClass"

fun message :: "error \<Rightarrow> string" where
  "message (InvalidSymbolError m) = m"
| "message (NetworkError m) = m"
| "message (ParsingError m) = m"
| "message (LibraryError m) = m"

section \<open>fetch\<close>

definition BASE_URL :: string where
  "BASE_URL = ''https://money.cnn.com/quote/forecast/forecast.html?symb=''"

record response =
  status_code :: int
  reason :: string
  resp_text :: string

text \<open>\<open>str\<close> of an integer, as the f-string formats the status code.\<close>

fun str_nat :: "nat \<Rightarrow> string" where
  "str_nat n =
     (if n < 10 then [''0123456789'' ! n]
      else str_nat (n div 10) @ [''0123456789'' ! (n mod 10)])"

declare str_nat.simps [simp del]

definition str_int :: "int \<Rightarrow> string" where
  "str_int i = (if i < 0 then CHR ''-'' # str_nat (nat (- i)) else str_nat (nat i))"

text \<open>The f-string of the \<open>NetworkError\<close>.\<close>

definition load_failure_message :: "int \<Rightarrow> string \<Rightarrow> string" where
  "load_failure_message status phrase =
     ''The page could not be loaded. (Error: '' @ str_int status @ '' - Reason: '' @ phrase @ '')''"

text \<open>
  The network is the function \<open>requests_get\<close> from a URL to the response or to the
  exception the transport raised; the list of the URLs requested so far is passed through,
  so that a request shows as one more entry.
\<close>

definition fetch ::
  "(string \<Rightarrow> error + response) \<Rightarrow> string \<Rightarrow> string \<Rightarrow> string list \<Rightarrow> (error + string) \<times> string list" where
  "fetch requests_get symbol url sent =
     (if symbol = []
      then (Inl (InvalidSymbolError ''The symbol must contain at least one character''), sent)
      else
        (case requests_get (url @ symbol) of
           Inl e \<Rightarrow> (Inl e, sent @ [url @ symbol])
         | Inr webpage \<Rightarrow>
             if status_code webpage = 200
             then (Inr (resp_text webpage), sent @ [url @ symbol])
             else (Inl (NetworkError
                          (load_failure_message (status_code webpage) (reason webpage))),
                   sent @ [url @ symbol])))"

section \<open>parse\<close>

text \<open>
  The tree BeautifulSoup builds: tags with their attributes and children, the strings
  that count as text, and the strings that do not (comments and the like). The parser
  itself is the parameter \<open>BeautifulSoup\<close>, from the markup to the root of the tree.
\<close>

datatype node =
    Tag string "(string \<times> string) list" "node list"
  | NavigableString string
  | Comment string

fun text_of :: "node \<Rightarrow> string" where
  "text_of (Tag n a cs) = concat (map text_of cs)"
| "text_of (NavigableString s) = s"
| "text_of (Comment s) = []"

fun descendants :: "node \<Rightarrow> node list" where
  "descendants (Tag n a cs) = concat (map (\<lambda>c. c # descendants c) cs)"
| "descendants (NavigableString s) = []"
| "descendants (Comment s) = []"

fun is_tag :: "string \<Rightarrow> node \<Rightarrow> bool" where
  "is_tag name (Tag n a cs) = (n = name)"
| "is_tag name _ = False"

fun has_id :: "string \<Rightarrow> node \<Rightarrow> bool" where
  "has_id i (Tag n a cs) = (map_of a ''id'' = Some i)"
| "has_id i _ = False"

definition find_all :: "string \<Rightarrow> node \<Rightarrow> node list" where
  "find_all name nd = filter (is_tag name) (descendants nd)"

definition find_id :: "string \<Rightarrow> node \<Rightarrow> node option" where
  "find_id i nd = List.find (has_id i) (descendants nd)"

definition parse :: "(string \<Rightarrow> node) \<Rightarrow> string \<Rightarrow> error + node list" where
  "parse BeautifulSoup page =
     (let soup = BeautifulSoup page;
          headings = map (\<lambda>h1. lower (text_of h1)) (find_all ''h1'' soup)
      in if ''symbol not found'' \<in> set headings
         then Inl (InvalidSymbolError ''The symbol could not be found'')
         else
           (case find_id ''wsod_forecasts'' soup of
              Some tab \<Rightarrow> Inr (find_all ''p'' tab)
            | None \<Rightarrow> Inl (ParsingError ''An error occurred while attempting to parse this page.'')))"

section \<open>get_prices\<close>

text \<open>
  What \<open>get_prices\<close> returns: the dictionary, \<open>False\<close>, or the \<open>None\<close> of a function
  that ends without a \<open>return\<close>.
\<close>

datatype result = Quote "(string \<times> decimal) list" | PyFalse | PyNone

text \<open>The dictionary comprehension: \<open>Decimal(value)\<close> for every item, in order.\<close>

fun decimal_items :: "(string \<times> string option) list \<Rightarrow> error + (string \<times> decimal) list" where
  "decimal_items [] = Inr []"
| "decimal_items ((key, None) # kvs) = Inl (LibraryError ''TypeError'')"
| "decimal_items ((key, Some v) # kvs) =
     (case Decimal v of
        None \<Rightarrow> Inl (LibraryError ''Decimal: not a plain numeral'')
      | Some d \<Rightarrow>
          (case decimal_items kvs of
             Inl e \<Rightarrow> Inl e
           | Inr ds \<Rightarrow> Inr ((key, d) # ds)))"

text \<open>The condition of the \<open>if\<close>: a match whose group names are the four keys.\<close>

fun quotes_of :: "captures option \<Rightarrow> (string \<times> string option) list option" where
  "quotes_of None = None"
| "quotes_of (Some m) =
     (let quotes = groupdict PATTERN m
      in if set (map fst quotes) = {''current'', ''high'', ''median'', ''low''}
         then Some quotes else None)"

text \<open>
  The loop over \<open>items\<close>: every branch of its body returns or raises, so the body runs
  for the first item only; with no item the function ends without a \<open>return\<close>.
\<close>

fun get_prices :: "node list \<Rightarrow> error + result" where
  "get_prices [] = Inr PyNone"
| "get_prices (item # items) =
     (let paragraph = strip_commas (text_of item);
          match = re_match PATTERN paragraph
      in case quotes_of match of
           Some quotes \<Rightarrow>
             (case decimal_items quotes of Inl e \<Rightarrow> Inl e | Inr q \<Rightarrow> Inr (Quote q))
         | None \<Rightarrow>
             if lower paragraph = ''there is no forecast data available.''
             then Inl (InvalidSymbolError ''This symbol does not have any forecast data'')
             else Inr PyFalse)"

section \<open>What a match is, as a relation\<close>

text \<open>
  \<open>sem p w c c'\<close>: the regex \<open>p\<close> matches exactly the text \<open>w\<close>, taking the captures
  \<open>c\<close> to \<open>c'\<close>. The outcomes of \<open>run\<close> are the splits of the text into such a \<open>w\<close> and
  a remainder.
\<close>

fun sem :: "regex \<Rightarrow> string \<Rightarrow> captures \<Rightarrow> captures \<Rightarrow> bool" where
  "sem (Lit l) w c c' = (w = l \<and> c' = c)"
| "sem (One k) w c c' = (\<exists>x. w = [x] \<and> in_class k x \<and> c' = c)"
| "sem (Star k) w c c' = (list_all (in_class k) w \<and> c' = c)"
| "sem (Rep n k) w c c' = (length w = n \<and> list_all (in_class k) w \<and> c' = c)"
| "sem (Cat a b) w c c' = (\<exists>u v c1. w = u @ v \<and> sem a u c c1 \<and> sem b v c1 c')"
| "sem (Alt a b) w c c' = (sem a w c c' \<or> sem b w c c')"
| "sem (Group n a) w c c' = (\<exists>c1. sem a w c c1 \<and> c' = (n, w) # c1)"

section \<open>The sentence of the grammar\<close>

text \<open>A text of the form \<open>\d*\.\d{2}\<close>.\<close>

definition price_text :: "string \<Rightarrow> bool" where
  "price_text t =
     (case rev t of
        b # a # p # ds \<Rightarrow> is_digit b \<and> is_digit a \<and> p = CHR ''.'' \<and> list_all is_digit ds
      | _ \<Rightarrow> False)"

definition no_newline :: "string \<Rightarrow> bool" where
  "no_newline s = list_all (\<lambda>c. c \<noteq> CHR 0x0A) s"

text \<open>
  The parts that vary in the sentence: the analyst count \<open><N>\<close>, the company \<open><NAME>\<close>,
  the three targets, the percentage \<open><PCT>\<close>, the direction and the last price.
\<close>

record parts =
  p_count :: string
  p_name :: string
  p_median :: string
  p_high :: string
  p_low :: string
  p_percent :: string
  p_direction :: string
  p_current :: string

text \<open>
  The sentence built from its parts. The character that follows \<open><low>\<close> is a parameter:
  the grammar has a full stop there.
\<close>

definition sentence_with :: "char \<Rightarrow> parts \<Rightarrow> string" where
  "sentence_with x ps =
     ''The '' @ p_count ps @ '' analysts offering 12-month price forecasts for '' @ p_name ps
     @ '' have a median target of '' @ p_median ps
     @ '' with a high estimate of '' @ p_high ps
     @ '' and a low estimate of '' @ p_low ps @ [x]
     @ '' The median estimate represents a '' @ p_percent ps @ ''% '' @ p_direction ps
     @ '' from the last price of '' @ p_current ps @ ''.''"

text \<open>
  The parts a sentence may have: the count starts with a digit, count, company and
  percentage stay on one line (what \<open>\d.*\<close> and \<open>.*\<close> take), the four prices have the form
  \<open>\d*\.\d{2}\<close>, the direction is one of the two words.
\<close>

definition well_formed :: "parts \<Rightarrow> bool" where
  "well_formed ps =
     ((case p_count ps of [] \<Rightarrow> False | d # r \<Rightarrow> is_digit d \<and> no_newline r)
      \<and> no_newline (p_name ps)
      \<and> price_text (p_median ps) \<and> price_text (p_high ps) \<and> price_text (p_low ps)
      \<and> no_newline (p_percent ps)
      \<and> (p_direction ps = ''increase'' \<or> p_direction ps = ''decrease'')
      \<and> price_text (p_current ps))"

text \<open>
  The grammar as the specification words it: the whole text is the fixed sentence, with
  well-formed parts in the places that vary.
\<close>

definition grammar_sentence :: "string \<Rightarrow> bool" where
  "grammar_sentence t = (\<exists>ps. well_formed ps \<and> t = sentence_with (CHR ''.'') ps)"

text \<open>The number a numeral \<open>digits.digits\<close> denotes, read place by place.\<close>

definition numeral_value :: "string \<Rightarrow> rat" where
  "numeral_value t =
     (let ip = takeWhile (\<lambda>c. c \<noteq> CHR ''.'') t;
          fp = drop (Suc (length ip)) t
      in of_nat (nat_of_digits ip) + of_nat (nat_of_digits fp) / 10 ^ length fp)"

section \<open>Captures and quotes\<close>

text \<open>The captures a match of \<open>PATTERN\<close> on a sentence with the parts \<open>ps\<close> leaves.\<close>

definition captures_of :: "parts \<Rightarrow> captures" where
  "captures_of ps =
     [(''current'', p_current ps), (''low'', p_low ps), (''high'', p_high ps),
      (''median'', p_median ps)]"

text \<open>
  \<open>captured m k d\<close>: the match \<open>m\<close> captured a text under the name \<open>k\<close>, \<open>d\<close> is the
  decimal \<open>Decimal\<close> reads from it, and \<open>d\<close> is worth exactly the number the text denotes.
\<close>

definition captured :: "captures \<Rightarrow> string \<Rightarrow> decimal \<Rightarrow> bool" where
  "captured m k d =
     (case map_of m k of
        None \<Rightarrow> False
      | Some t \<Rightarrow> Decimal t = Some d \<and> dec_value d = numeral_value t)"

section \<open>Example inputs\<close>

definition example_parts :: parts where
  "example_parts =
     \<lparr>p_count = ''25'', p_name = ''Acme Inc'', p_median = ''34.50'', p_high = ''50.00'',
      p_low = ''20.00'', p_percent = ''15.00'', p_direction = ''increase'',
      p_current = ''30.00''\<rparr>"

definition example_text :: string where
  "example_text = ''The 25 analysts offering 12-month price forecasts for Acme Inc have a median target of 34.50 with a high estimate of 50.00 and a low estimate of 20.00. The median estimate represents a 15.00% increase from the last price of 30.00.''"

definition example_item :: node where
  "example_item = Tag ''p'' [] [NavigableString ''The 25 analysts offering 12-month price forecasts for Acme, Inc have a median target of 34.50 with a high estimate of 50.00 and a low estimate of 20.00. The median estimate represents a 15.00% increase from the last price of 30.00.'']"

definition other_item :: node where
  "other_item = Tag ''p'' [] [NavigableString ''Price data is delayed.'']"

definition no_data_item :: node where
  "no_data_item = Tag ''p'' [] [NavigableString ''There is no forecast data available.'']"

definition example_quote :: "(string \<times> decimal) list" where
  "example_quote =
     [(''median'', \<lparr>dec_sign = False, dec_coeff = 3450, dec_exp = - 2\<rparr>),
      (''high'', \<lparr>dec_sign = False, dec_coeff = 5000, dec_exp = - 2\<rparr>),
      (''low'', \<lparr>dec_sign = False, dec_coeff = 2000, dec_exp = - 2\<rparr>),
      (''current'', \<lparr>dec_sign = False, dec_coeff = 3000, dec_exp = - 2\<rparr>)]"

definition example_response :: response where
  "example_response =
     \<lparr>status_code = 500, reason = ''Internal Server Error'', resp_text = ''<html></html>''\<rparr>"

definition example_soup :: node where
  "example_soup =
     Tag ''[document]'' []
       [Tag ''html'' []
          [Tag ''body'' []
             [Tag ''h1'' [] [NavigableString ''Symbol '', Tag ''b'' [] [NavigableString ''Not Found'']],
              Tag ''div'' [(''id'', ''wsod_forecasts'')] [example_item]]]]"

section \<open>The matcher computes the relation\<close>

lemma starts_with_iff: "starts_with l s \<longleftrightarrow> (\<exists>r. s = l @ r)"
  by (induction l s rule: starts_with.induct) auto

lemma star_rests_set:
  "set (star_rests k s) = {r. \<exists>w. s = w @ r \<and> list_all (in_class k) w}"
proof (induction s)
  case Nil
  show ?case by auto
next
  case (Cons x xs)
  show ?case
  proof (cases "in_class k x")
    case True
    have "{r. \<exists>w. x # xs = w @ r \<and> list_all (in_class k) w}
        = insert (x # xs) {r. \<exists>w. xs = w @ r \<and> list_all (in_class k) w}"
      using True by (auto simp: Cons_eq_append_conv)
    then show ?thesis using True Cons by simp
  next
    case False
    have "{r. \<exists>w. x # xs = w @ r \<and> list_all (in_class k) w} = {x # xs}"
      using False by (auto simp: Cons_eq_append_conv)
    then show ?thesis using False by simp
  qed
qed

lemma rep_rest_iff:
  "rep_rest n k s = Some r \<longleftrightarrow> (\<exists>w. s = w @ r \<and> length w = n \<and> list_all (in_class k) w)"
proof (induction n k s rule: rep_rest.induct)
  case (1 k s)
  show ?case by auto
next
  case (2 n k)
  show ?case by auto
next
  case (3 n k x xs)
  show ?case
  proof (cases "in_class k x")
    case True
    then show ?thesis using 3 by (auto simp: Cons_eq_append_conv length_Suc_conv)
  next
    case False
    then show ?thesis by (auto simp: Cons_eq_append_conv length_Suc_conv)
  qed
qed

lemma run_sem:
  "(r, c') \<in> set (run p s c) \<longleftrightarrow> (\<exists>w. s = w @ r \<and> sem p w c c')"
proof (induction p arbitrary: s c r c')
  case (Lit l)
  show ?case by (auto simp: starts_with_iff)
next
  case (One k)
  show ?case by (cases s) auto
next
  case (Star k)
  show ?case by (auto simp: star_rests_set)
next
  case (Rep n k)
  show ?case using rep_rest_iff[of n k s r] by (cases "rep_rest n k s") auto
next
  case (Cat a b)
  have "(r, c') \<in> set (run (Cat a b) s c)
      \<longleftrightarrow> (\<exists>r1 c1. (r1, c1) \<in> set (run a s c) \<and> (r, c') \<in> set (run b r1 c1))"
    by auto
  also have "\<dots> \<longleftrightarrow> (\<exists>r1 c1 u v. s = u @ r1 \<and> sem a u c c1 \<and> r1 = v @ r \<and> sem b v c1 c')"
    unfolding Cat by blast
  also have "\<dots> \<longleftrightarrow> (\<exists>w. s = w @ r \<and> sem (Cat a b) w c c')"
  proof
    assume "\<exists>r1 c1 u v. s = u @ r1 \<and> sem a u c c1 \<and> r1 = v @ r \<and> sem b v c1 c'"
    then obtain c1 u v where "s = (u @ v) @ r" "sem a u c c1" "sem b v c1 c'"
      by auto
    then show "\<exists>w. s = w @ r \<and> sem (Cat a b) w c c'"
      unfolding sem.simps by blast
  next
    assume "\<exists>w. s = w @ r \<and> sem (Cat a b) w c c'"
    then obtain u v c1 where "s = u @ (v @ r)" "sem a u c c1" "sem b v c1 c'"
      by auto
    then show "\<exists>r1 c1 u v. s = u @ r1 \<and> sem a u c c1 \<and> r1 = v @ r \<and> sem b v c1 c'"
      by blast
  qed
  finally show ?case .
next
  case (Alt a b)
  show ?case by (auto simp: Alt)
next
  case (Group n a)
  have "(r, c') \<in> set (run (Group n a) s c)
      \<longleftrightarrow> (\<exists>c1. (r, c1) \<in> set (run a s c) \<and> c' = (n, take (length s - length r) s) # c1)"
    by (force simp: image_iff)
  also have "\<dots> \<longleftrightarrow> (\<exists>c1 w. s = w @ r \<and> sem a w c c1 \<and> c' = (n, take (length s - length r) s) # c1)"
    unfolding Group by blast
  also have "\<dots> \<longleftrightarrow> (\<exists>w. s = w @ r \<and> sem (Group n a) w c c')"
    by auto
  finally show ?case .
qed

section \<open>What \<open>PATTERN\<close> matches\<close>

lemma price_text_iff:
  "price_text t \<longleftrightarrow> (\<exists>ds a b. t = ds @ CHR ''.'' # [a, b] \<and> list_all is_digit ds \<and> is_digit a \<and> is_digit b)"
proof
  assume "price_text t"
  then obtain b a ds where r: "rev t = b # a # CHR ''.'' # ds"
    and d: "is_digit b" "is_digit a" "list_all is_digit ds"
    by (auto simp: price_text_def split: list.splits)
  from r have "t = rev ds @ CHR ''.'' # [a, b]"
    by (simp add: rev_swap)
  with d show "\<exists>ds a b. t = ds @ CHR ''.'' # [a, b] \<and> list_all is_digit ds \<and> is_digit a \<and> is_digit b"
    by (metis list_all_rev)
next
  assume "\<exists>ds a b. t = ds @ CHR ''.'' # [a, b] \<and> list_all is_digit ds \<and> is_digit a \<and> is_digit b"
  then show "price_text t"
    by (auto simp: price_text_def)
qed

lemma list_all_Digit: "list_all (in_class Digit) w = list_all is_digit w"
  by (induction w) auto

lemma list_all_AnyChar: "list_all (in_class AnyChar) w = no_newline w"
  by (induction w) (auto simp: no_newline_def)

lemma sem_price:
  "sem price w c c' \<longleftrightarrow> price_text w \<and> c' = c"
proof
  assume "sem price w c c'"
  then obtain ds v where w: "w = ds @ CHR ''.'' # v" and ds: "list_all is_digit ds"
    and v: "length v = 2" "list_all is_digit v" and c: "c' = c"
    by (auto simp: price_def list_all_Digit)
  from v obtain a b where "v = [a, b]" "is_digit a" "is_digit b"
    by (auto simp: length_Suc_conv numeral_2_eq_2)
  with w ds c show "price_text w \<and> c' = c"
    unfolding price_text_iff by blast
next
  assume "price_text w \<and> c' = c"
  then obtain ds a b where w: "w = ds @ CHR ''.'' # [a, b]" and d: "list_all is_digit ds"
    "is_digit a" "is_digit b" and c: "c' = c"
    unfolding price_text_iff by blast
  have "sem (Star Digit) ds c c" "sem (Lit ''.'') ''.'' c c" "sem (Rep 2 Digit) [a, b] c c"
    using d by (simp_all add: list_all_Digit)
  then have "sem price (ds @ ''.'' @ [a, b]) c c"
    unfolding price_def sem.simps(5) by blast
  with w c show "sem price w c c'" by simp
qed

lemma sem_Cat_Lit: "sem (Cat (Lit l) b) w c c' \<longleftrightarrow> (\<exists>v. w = l @ v \<and> sem b v c c')"
  by auto

lemma sem_Cat_One: "sem (Cat (One k) b) w c c' \<longleftrightarrow> (\<exists>x v. w = x # v \<and> in_class k x \<and> sem b v c c')"
  by (simp add: ex_simps [symmetric] del: ex_simps) (metis append_Cons append_Nil)

lemma sem_Cat_Star: "sem (Cat (Star k) b) w c c' \<longleftrightarrow> (\<exists>u v. w = u @ v \<and> list_all (in_class k) u \<and> sem b v c c')"
  by auto

lemma sem_Cat_Group_price:
  "sem (Cat (Group n price) b) w c c' \<longleftrightarrow> (\<exists>u v. w = u @ v \<and> price_text u \<and> sem b v ((n, u) # c) c')"
  by (auto simp: sem_price)

lemma sem_Cat_Alt_Lit:
  "sem (Cat (Alt (Lit l) (Lit m)) b) w c c' \<longleftrightarrow> (\<exists>v. (w = l @ v \<or> w = m @ v) \<and> sem b v c c')"
  by auto

lemmas sem_Cat_simps = sem_Cat_Lit sem_Cat_One sem_Cat_Star sem_Cat_Group_price sem_Cat_Alt_Lit

lemma pattern_sem_parts:
  "sem PATTERN w [] m \<longleftrightarrow>
     (\<exists>d N NAME med hi lo x PCT io cur.
        w = ''The '' @ d # N @ '' analysts offering 12-month price forecasts for '' @ NAME
            @ '' have a median target of '' @ med
            @ '' with a high estimate of '' @ hi
            @ '' and a low estimate of '' @ lo @ x # '' The median estimate represents a ''
            @ PCT @ ''% '' @ io @ ''crease from the last price of '' @ cur @ ''.''
        \<and> is_digit d \<and> no_newline N \<and> no_newline NAME \<and> price_text med \<and> price_text hi
        \<and> price_text lo \<and> x \<noteq> CHR 0x0A \<and> no_newline PCT \<and> (io = ''in'' \<or> io = ''de'')
        \<and> price_text cur
        \<and> m = [(''current'', cur), (''low'', lo), (''high'', hi), (''median'', med)])"
  unfolding PATTERN_def seq.simps sem_Cat_simps
  apply (simp only: sem.simps list_all_AnyChar in_class.simps)
  apply (rule iffI)
  subgoal
    apply (elim exE conjE disjE)
    subgoal
      apply hypsubst
      apply (intro exI conjI)
                apply (rule refl)
               apply (assumption | rule disjI1 refl)+
      done
    subgoal
      apply hypsubst
      apply (intro exI conjI)
                apply (rule refl)
               apply (assumption | rule disjI2 refl)+
      done
    done
  subgoal
    apply (elim exE conjE disjE)
    subgoal
      apply hypsubst
      apply (intro exI conjI)
      apply (assumption | rule disjI1 refl)+
      done
    subgoal
      apply hypsubst
      apply (intro exI conjI)
      apply (assumption | rule disjI2 refl)+
      done
    done
  done

lemma pattern_sem:
  "sem PATTERN w [] m \<longleftrightarrow>
     (\<exists>ps x. well_formed ps \<and> x \<noteq> CHR 0x0A \<and> w = sentence_with x ps \<and> m = captures_of ps)"
proof
  assume "sem PATTERN w [] m"
  then obtain d N NAME med hi lo x PCT io cur where
    w: "w = ''The '' @ d # N @ '' analysts offering 12-month price forecasts for '' @ NAME
            @ '' have a median target of '' @ med
            @ '' with a high estimate of '' @ hi
            @ '' and a low estimate of '' @ lo @ x # '' The median estimate represents a ''
            @ PCT @ ''% '' @ io @ ''crease from the last price of '' @ cur @ ''.''"
    and c: "is_digit d" "no_newline N" "no_newline NAME" "price_text med" "price_text hi"
      "price_text lo" "x \<noteq> CHR 0x0A" "no_newline PCT" "io = ''in'' \<or> io = ''de''"
      "price_text cur"
    and m: "m = [(''current'', cur), (''low'', lo), (''high'', hi), (''median'', med)]"
    unfolding pattern_sem_parts by blast
  define ps where "ps = \<lparr>p_count = d # N, p_name = NAME, p_median = med, p_high = hi,
    p_low = lo, p_percent = PCT, p_direction = io @ ''crease'', p_current = cur\<rparr>"
  have "well_formed ps"
    using c by (auto simp: well_formed_def ps_def)
  moreover have "w = sentence_with x ps"
    by (simp add: w sentence_with_def ps_def)
  moreover have "m = captures_of ps"
    by (simp add: m captures_of_def ps_def)
  ultimately show "\<exists>ps x. well_formed ps \<and> x \<noteq> CHR 0x0A \<and> w = sentence_with x ps \<and> m = captures_of ps"
    using c(7) by blast
next
  assume "\<exists>ps x. well_formed ps \<and> x \<noteq> CHR 0x0A \<and> w = sentence_with x ps \<and> m = captures_of ps"
  then obtain ps x where wf: "well_formed ps" and x: "x \<noteq> CHR 0x0A"
    and w: "w = sentence_with x ps" and m: "m = captures_of ps"
    by blast
  from wf obtain d N where dN: "p_count ps = d # N" "is_digit d" "no_newline N"
    by (auto simp: well_formed_def split: list.splits)
  from wf obtain io where io: "p_direction ps = io @ ''crease''" "io = ''in'' \<or> io = ''de''"
    by (auto simp: well_formed_def)
  show "sem PATTERN w [] m"
    unfolding pattern_sem_parts
    apply (rule exI [of _ d], rule exI [of _ N], rule exI [of _ "p_name ps"],
        rule exI [of _ "p_median ps"], rule exI [of _ "p_high ps"], rule exI [of _ "p_low ps"],
        rule exI [of _ x], rule exI [of _ "p_percent ps"], rule exI [of _ io],
        rule exI [of _ "p_current ps"])
    using wf x dN io
    by (simp add: w m sentence_with_def captures_of_def well_formed_def)
qed

lemma re_match_Some_sem:
  assumes "re_match p s = Some m"
  shows "\<exists>w r. s = w @ r \<and> sem p w [] m"
proof -
  from assms obtain r rs where "run p s [] = (r, m) # rs"
    by (auto simp: re_match_def split: list.splits)
  then have "(r, m) \<in> set (run p s [])"
    by simp
  then show ?thesis
    unfolding run_sem by blast
qed

lemma sem_re_match:
  assumes "sem p w [] m"
  shows "re_match p (w @ r) \<noteq> None"
proof -
  have "(r, m) \<in> set (run p (w @ r) [])"
    unfolding run_sem using assms by blast
  then have "run p (w @ r) [] \<noteq> []"
    by auto
  then show ?thesis
    by (auto simp: re_match_def split: list.splits)
qed

lemma pattern_match_parts:
  assumes "re_match PATTERN t = Some m"
  shows "\<exists>ps x r. well_formed ps \<and> x \<noteq> CHR 0x0A \<and> t = sentence_with x ps @ r \<and> m = captures_of ps"
  using re_match_Some_sem [OF assms] unfolding pattern_sem by blast

lemma sentence_matches:
  assumes "well_formed ps" and "x \<noteq> CHR 0x0A"
  shows "re_match PATTERN (sentence_with x ps @ r) \<noteq> None"
proof -
  have "sem PATTERN (sentence_with x ps) [] (captures_of ps)"
    unfolding pattern_sem using assms by blast
  then show ?thesis
    by (rule sem_re_match)
qed

section \<open>Decimals of captured prices\<close>

lemma digit_not_point: "is_digit c \<Longrightarrow> c \<noteq> CHR ''.'' \<and> c \<noteq> CHR ''-'' \<and> c \<noteq> CHR ''+''"
  by (auto simp: is_digit_def)

lemma takeWhile_digits:
  "list_all is_digit ds \<Longrightarrow> takeWhile (\<lambda>c. c \<noteq> CHR ''.'') (ds @ CHR ''.'' # r) = ds"
  by (induction ds) (auto dest: digit_not_point)

lemma dropWhile_digits:
  "list_all is_digit ds \<Longrightarrow> dropWhile (\<lambda>c. c \<noteq> CHR ''.'') (ds @ CHR ''.'' # r) = CHR ''.'' # r"
  by (induction ds) (auto dest: digit_not_point)

lemma foldl_digits:
  "foldl (\<lambda>n c. 10 * n + digit_val c) k s = k * 10 ^ length s + foldl (\<lambda>n c. 10 * n + digit_val c) 0 s"
proof (induction s arbitrary: k)
  case Nil
  show ?case by simp
next
  case (Cons x xs)
  show ?case
    using Cons [of "10 * k + digit_val x"] Cons [of "digit_val x"]
    by (simp add: algebra_simps)
qed

lemma nat_of_digits_append:
  "nat_of_digits (xs @ ys) = nat_of_digits xs * 10 ^ length ys + nat_of_digits ys"
  unfolding nat_of_digits_def foldl_append
  by (rule foldl_digits)

lemma Decimal_price:
  assumes "price_text t"
  shows "\<exists>d. Decimal t = Some d \<and> dec_value d = numeral_value t \<and> dec_exp d = - 2 \<and> \<not> dec_sign d"
proof -
  from assms obtain ds a b where t: "t = ds @ CHR ''.'' # [a, b]"
    and d: "list_all is_digit ds" "is_digit a" "is_digit b"
    unfolding price_text_iff by blast
  have sign: "(case t of [] \<Rightarrow> (False, t)
       | c # r \<Rightarrow> if c = CHR ''-'' then (True, r)
                  else if c = CHR ''+'' then (False, r) else (False, t)) = (False, t)"
    using d unfolding t by (cases ds) (auto dest: digit_not_point)
  define d0 where "d0 = \<lparr>dec_sign = False, dec_coeff = nat_of_digits (ds @ [a, b]), dec_exp = - 2\<rparr>"
  have D: "Decimal t = Some d0"
    unfolding Decimal_def sign
    using d by (simp add: t takeWhile_digits dropWhile_digits d0_def)
  have "numeral_value t = of_nat (nat_of_digits ds) + of_nat (nat_of_digits [a, b]) / 100"
    using d by (simp add: numeral_value_def t takeWhile_digits)
  moreover have "dec_value d0 = of_nat (nat_of_digits ds * 100 + nat_of_digits [a, b]) / 100"
    by (simp add: dec_value_def d0_def nat_of_digits_append)
  ultimately have "dec_value d0 = numeral_value t"
    by (simp add: field_simps)
  with D show ?thesis
    by (simp add: d0_def)
qed

lemma group_names_PATTERN:
  "group_names PATTERN = [''median'', ''high'', ''low'', ''current'']"
  by (simp add: PATTERN_def price_def)

lemma groupdict_PATTERN:
  "groupdict PATTERN (captures_of ps) =
     [(''median'', Some (p_median ps)), (''high'', Some (p_high ps)),
      (''low'', Some (p_low ps)), (''current'', Some (p_current ps))]"
  by (simp add: groupdict_def group_names_PATTERN captures_of_def)

lemma quotes_of_Some: "quotes_of (Some m) = Some (groupdict PATTERN m)"
  by (auto simp: groupdict_def group_names_PATTERN)

lemma decimal_items_keys: "decimal_items kvs = Inr q \<Longrightarrow> map fst q = map fst kvs"
  by (induction kvs arbitrary: q rule: decimal_items.induct)
     (auto split: option.splits sum.splits)

section \<open>The quote of a matching first fragment\<close>

text \<open>
  C1. When the pattern matches the text of the first fragment (commas stripped),
  \<open>get_prices\<close> returns the dictionary of the four keys, the same whatever fragments follow;
  under each key stands the decimal read from the text the match captured for it, and
  that decimal is worth exactly the number the captured text denotes.
\<close>

theorem get_prices_first_match:
  assumes "re_match PATTERN (strip_commas (text_of item)) = Some m"
  shows "\<exists>median high low current.
           get_prices (item # items) =
             Inr (Quote [(''median'', median), (''high'', high), (''low'', low), (''current'', current)])
           \<and> captured m ''median'' median \<and> captured m ''high'' high
           \<and> captured m ''low'' low \<and> captured m ''current'' current
           \<and> get_prices (item # items) = get_prices [item]"
proof -
  from pattern_match_parts [OF assms] obtain ps where wf: "well_formed ps"
    and m: "m = captures_of ps"
    by blast
  from wf have p: "price_text (p_median ps)" "price_text (p_high ps)" "price_text (p_low ps)"
    "price_text (p_current ps)"
    by (simp_all add: well_formed_def)
  from p(1) obtain dm where dm: "Decimal (p_median ps) = Some dm" "dec_value dm = numeral_value (p_median ps)"
    using Decimal_price by blast
  from p(2) obtain dh where dh: "Decimal (p_high ps) = Some dh" "dec_value dh = numeral_value (p_high ps)"
    using Decimal_price by blast
  from p(3) obtain dl where dl: "Decimal (p_low ps) = Some dl" "dec_value dl = numeral_value (p_low ps)"
    using Decimal_price by blast
  from p(4) obtain dc where dc: "Decimal (p_current ps) = Some dc" "dec_value dc = numeral_value (p_current ps)"
    using Decimal_price by blast
  have "get_prices (item # rest) =
          Inr (Quote [(''median'', dm), (''high'', dh), (''low'', dl), (''current'', dc)])" for rest
    by (simp add: assms quotes_of_Some m groupdict_PATTERN dm dh dl dc del: quotes_of.simps)
  then have "get_prices (item # items) =
          Inr (Quote [(''median'', dm), (''high'', dh), (''low'', dl), (''current'', dc)])"
    and "get_prices (item # items) = get_prices [item]"
    by simp_all
  moreover have "captured m ''median'' dm" "captured m ''high'' dh" "captured m ''low'' dl"
    "captured m ''current'' dc"
    by (simp_all add: captured_def m captures_of_def dm dh dl dc)
  ultimately show ?thesis
    by blast
qed

text \<open>
  C5. A dictionary that \<open>get_prices\<close> returns has the four keys \<open>current\<close>,
  \<open>median\<close>, \<open>high\<close>, \<open>low\<close>, each once, and no other key; its values are decimals.
\<close>

theorem get_prices_quote_keys:
  assumes "get_prices items = Inr (Quote q)"
  shows "distinct (map fst q) \<and> set (map fst q) = {''current'', ''median'', ''high'', ''low''}"
proof (cases items)
  case Nil
  with assms show ?thesis by simp
next
  case (Cons item rest)
  with assms obtain quotes where
    qo: "quotes_of (re_match PATTERN (strip_commas (text_of item))) = Some quotes"
    and di: "decimal_items quotes = Inr q"
    by (auto simp: Let_def split: option.splits sum.splits if_splits)
  from qo have "map fst quotes = [''median'', ''high'', ''low'', ''current'']"
    by (cases "re_match PATTERN (strip_commas (text_of item))")
       (auto simp: quotes_of_Some groupdict_def group_names_PATTERN comp_def simp del: quotes_of.simps(2))
  with decimal_items_keys [OF di] show ?thesis
    by auto
qed

section \<open>The example sentence\<close>

lemma example_text_parts: "example_text = sentence_with (CHR ''.'') example_parts"
  by (simp add: example_text_def sentence_with_def example_parts_def)

lemma example_item_text: "strip_commas (text_of example_item) = example_text"
  by (simp add: example_item_def strip_commas_def example_text_def)

lemma example_parts_well_formed: "well_formed example_parts"
  by (simp add: well_formed_def example_parts_def price_text_def is_digit_def no_newline_def)

lemma example_grammar: "grammar_sentence example_text"
  unfolding grammar_sentence_def using example_parts_well_formed example_text_parts by blast

lemma grammar_sentence_last: "grammar_sentence t \<Longrightarrow> last t = CHR ''.''"
  by (auto simp: grammar_sentence_def sentence_with_def)

lemma example_match:
  "re_match PATTERN example_text =
     Some [(''current'', ''30.00''), (''low'', ''20.00''), (''high'', ''50.00''), (''median'', ''34.50'')]"
  by code_simp

lemma other_no_match: "re_match PATTERN (strip_commas (text_of other_item)) = None"
  by code_simp

lemma other_not_sentinel:
  "lower (strip_commas (text_of other_item)) \<noteq> ''there is no forecast data available.''"
  by code_simp

lemma no_data_sentinel:
  "lower (strip_commas (text_of no_data_item)) = ''there is no forecast data available.''"
  by code_simp

section \<open>The pattern and the grammar\<close>

text \<open>
  C2, as stated, fails: the example sentence followed by more text still matches, since
  \<open>re.match\<close> anchors the pattern at the start only, but it is not the fixed sentence.
\<close>

theorem pattern_match_counterexample:
  "re_match PATTERN (example_text @ '' See more'') \<noteq> None
   \<and> \<not> grammar_sentence (example_text @ '' See more'')"
proof
  show "re_match PATTERN (example_text @ '' See more'') \<noteq> None"
    unfolding example_text_parts
    by (rule sentence_matches [OF example_parts_well_formed]) simp
  show "\<not> grammar_sentence (example_text @ '' See more'')"
    using grammar_sentence_last [of "example_text @ '' See more''"] by auto
qed

text \<open>
  C2, amended. A text matches whenever it begins with a sentence of the grammar, whatever
  follows the sentence. A text that matches begins with the fixed sentence, with
  well-formed parts in the places that vary, up to the one character that follows
  \<open><low>\<close>, on which nothing is said here.
\<close>

theorem pattern_match_grammar:
  "(grammar_sentence s \<longrightarrow> re_match PATTERN (s @ r) \<noteq> None)
   \<and> (re_match PATTERN t \<noteq> None \<longrightarrow> (\<exists>ps x r. well_formed ps \<and> t = sentence_with x ps @ r))"
proof (intro conjI impI)
  assume "grammar_sentence s"
  then obtain ps where "well_formed ps" "s = sentence_with (CHR ''.'') ps"
    unfolding grammar_sentence_def by blast
  then show "re_match PATTERN (s @ r) \<noteq> None"
    using sentence_matches [of ps "CHR ''.''" r] by simp
next
  assume "re_match PATTERN t \<noteq> None"
  then obtain m where "re_match PATTERN t = Some m"
    by auto
  from pattern_match_parts [OF this]
  show "\<exists>ps x r. well_formed ps \<and> t = sentence_with x ps @ r"
    by blast
qed

theorem pattern_match_grammar_witness:
  "re_match PATTERN (example_text @ '' See more'') \<noteq> None
   \<and> (\<exists>ps x r. well_formed ps \<and> example_text = sentence_with x ps @ r)"
  using pattern_match_grammar [of example_text "'' See more''" example_text]
    example_grammar example_match
  by simp

text \<open>
  The pattern has an unescaped \<open>.\<close> after \<open><low>\<close>: any character but a line feed is
  accepted where the sentence has its first full stop.
\<close>

lemma pattern_wildcard_after_low:
  "re_match PATTERN (sentence_with (CHR ''X'') example_parts) \<noteq> None"
  using sentence_matches [OF example_parts_well_formed, of "CHR ''X''" "[]"] by simp

section \<open>The example quote\<close>

lemma example_decimals:
  "Decimal ''34.50'' = Some \<lparr>dec_sign = False, dec_coeff = 3450, dec_exp = - 2\<rparr>"
  "Decimal ''50.00'' = Some \<lparr>dec_sign = False, dec_coeff = 5000, dec_exp = - 2\<rparr>"
  "Decimal ''20.00'' = Some \<lparr>dec_sign = False, dec_coeff = 2000, dec_exp = - 2\<rparr>"
  "Decimal ''30.00'' = Some \<lparr>dec_sign = False, dec_coeff = 3000, dec_exp = - 2\<rparr>"
  by code_simp+

lemma example_prices: "get_prices (example_item # items) = Inr (Quote example_quote)"
  by (simp add: example_item_text example_match quotes_of_Some groupdict_def
      group_names_PATTERN example_decimals example_quote_def del: quotes_of.simps)

theorem get_prices_first_match_witness:
  "get_prices [example_item, other_item] = Inr (Quote example_quote)
   \<and> map (\<lambda>(k, d). dec_value d) example_quote = [69 / 2, 50, 20, 30]"
proof -
  have m: "re_match PATTERN (strip_commas (text_of example_item)) =
    Some [(''current'', ''30.00''), (''low'', ''20.00''), (''high'', ''50.00''), (''median'', ''34.50'')]"
    by (simp add: example_item_text example_match)
  from get_prices_first_match [OF m, of "[other_item]"]
  have "get_prices [example_item, other_item] = Inr (Quote example_quote)"
    by (auto simp: captured_def example_decimals example_quote_def)
  moreover have "map (\<lambda>(k, d). dec_value d) example_quote = [69 / 2, 50, 20, 30]"
    by (simp add: example_quote_def dec_value_def)
  ultimately show ?thesis ..
qed

theorem get_prices_quote_keys_witness:
  "distinct (map fst example_quote)
   \<and> set (map fst example_quote) = {''current'', ''median'', ''high'', ''low''}"
  by (rule get_prices_quote_keys [OF example_prices [of "[]"]])

section \<open>Fragments that do not match\<close>

lemma get_prices_other:
  assumes "re_match PATTERN (strip_commas (text_of item)) = None"
  shows "get_prices (item # items) =
     (if lower (strip_commas (text_of item)) = ''there is no forecast data available.''
      then Inl (InvalidSymbolError ''This symbol does not have any forecast data'')
      else Inr PyFalse)"
  by (simp add: assms)

text \<open>
  C3. When the first fragment neither matches the pattern nor is the no-data sentence,
  \<open>get_prices\<close> returns \<open>False\<close> at once, whatever fragments follow, a matching one
  included.
\<close>

theorem get_prices_no_match:
  assumes "re_match PATTERN (strip_commas (text_of item)) = None"
    and "lower (strip_commas (text_of item)) \<noteq> ''there is no forecast data available.''"
  shows "get_prices (item # items) = Inr PyFalse"
  by (simp add: get_prices_other [OF assms(1)] assms(2) del: get_prices.simps)

theorem get_prices_no_match_witness:
  "get_prices [other_item, example_item] = Inr PyFalse"
  by (rule get_prices_no_match [OF other_no_match other_not_sentinel])

text \<open>
  C4. With no fragment at all \<open>get_prices\<close> ends without a \<open>return\<close>: its result is
  \<open>None\<close>, not the \<open>False\<close> it returns for a first fragment that does not match.
\<close>

theorem get_prices_empty:
  "get_prices [] = Inr PyNone \<and> get_prices [other_item] = Inr PyFalse
   \<and> get_prices [] \<noteq> get_prices [other_item]"
  by (simp add: get_prices_other [OF other_no_match] other_not_sentinel del: get_prices.simps(2))

lemma lower_char_The:
  "lower_char (CHR ''T'') = CHR ''t''" "lower_char (CHR ''h'') = CHR ''h''"
  "lower_char (CHR ''e'') = CHR ''e''" "lower_char (CHR '' '') = CHR '' ''"
  by code_simp+

lemma lower_The: "lower (''The '' @ r) = ''the '' @ lower r"
  by (simp add: lower_def lower_char_The)

lemma sentinel_no_match:
  assumes "lower t = ''there is no forecast data available.''"
  shows "re_match PATTERN t = None"
proof (rule ccontr)
  assume "re_match PATTERN t \<noteq> None"
  then obtain m where "re_match PATTERN t = Some m"
    by auto
  from pattern_match_parts [OF this] obtain ps x r where "t = sentence_with x ps @ r"
    by blast
  then obtain u where "t = ''The '' @ u"
    by (simp add: sentence_with_def)
  with assms have "''the '' @ lower u = ''there is no forecast data available.''"
    using lower_The [of u] by simp
  then show False
    by simp
qed

lemma get_prices_sentinel:
  assumes "lower (strip_commas (text_of item)) = ''there is no forecast data available.''"
  shows "get_prices (item # items) =
     Inl (InvalidSymbolError ''This symbol does not have any forecast data'')"
  by (simp add: get_prices_other [OF sentinel_no_match [OF assms]] assms del: get_prices.simps)

text \<open>
  C9. When the text of the first fragment, commas stripped and lower-cased, is
  \<open>there is no forecast data available.\<close>, the pattern does not match it and
  \<open>get_prices\<close> raises \<open>InvalidSymbolError\<close> with the message
  \<open>This symbol does not have any forecast data\<close>, whatever fragments follow.
\<close>

theorem get_prices_no_forecast_data:
  assumes "lower (strip_commas (text_of item)) = ''there is no forecast data available.''"
  shows "re_match PATTERN (strip_commas (text_of item)) = None
   \<and> get_prices (item # items) =
       Inl (InvalidSymbolError ''This symbol does not have any forecast data'')
   \<and> suffix ''symbol does not have any forecast data''
        ''This symbol does not have any forecast data''"
  using sentinel_no_match [OF assms] get_prices_sentinel [OF assms]
  by (simp add: suffix_def)

theorem get_prices_no_forecast_data_witness:
  "get_prices [no_data_item, example_item] =
     Inl (InvalidSymbolError ''This symbol does not have any forecast data'')"
  using get_prices_no_forecast_data [OF no_data_sentinel, of "[example_item]"]
  by simp

section \<open>fetch\<close>

lemma fetch_empty:
  "fetch requests_get [] url sent =
     (Inl (InvalidSymbolError ''The symbol must contain at least one character''), sent)"
  by (simp add: fetch_def)

text \<open>
  C6. With the empty symbol \<open>fetch\<close> raises \<open>InvalidSymbolError\<close> with the message
  \<open>The symbol must contain at least one character\<close> (the specification quotes its
  last words), whatever the network would answer, and the list of requests is left as it
  was: nothing is sent.
\<close>

theorem fetch_empty_symbol:
  "fetch requests_get [] url sent =
     (Inl (InvalidSymbolError ''The symbol must contain at least one character''), sent)
   \<and> suffix ''symbol must contain at least one character''
        (message (InvalidSymbolError ''The symbol must contain at least one character''))"
  by (simp add: fetch_empty suffix_def)

lemma digit_nth: "k < 10 \<Longrightarrow> is_digit (''0123456789'' ! k)"
  unfolding is_digit_def by (rule nth_mem) simp

lemma digit_vals: "map digit_val ''0123456789'' = [0..<10]"
  by code_simp

lemma digit_val_nth:
  assumes "k < 10"
  shows "digit_val (''0123456789'' ! k) = k"
proof -
  have "digit_val (''0123456789'' ! k) = map digit_val ''0123456789'' ! k"
    using assms by (simp only: nth_map length_Cons list.size)
  also have "\<dots> = k"
    unfolding digit_vals using assms by simp
  finally show ?thesis .
qed

lemma str_nat_digits: "list_all is_digit (str_nat n)"
proof (induction n rule: str_nat.induct)
  case (1 n)
  show ?case
  proof (cases "n < 10")
    case True
    then show ?thesis
      by (subst str_nat.simps) (simp add: digit_nth)
  next
    case False
    then show ?thesis
      using 1 by (subst str_nat.simps) (simp add: digit_nth)
  qed
qed

lemma str_nat_not_Nil: "str_nat n \<noteq> []"
  by (subst str_nat.simps) simp

lemma nat_of_digits_str_nat: "nat_of_digits (str_nat n) = n"
proof (induction n rule: str_nat.induct)
  case (1 n)
  show ?case
  proof (cases "n < 10")
    case True
    then show ?thesis
      by (subst str_nat.simps) (simp add: nat_of_digits_def digit_val_nth)
  next
    case False
    then have "nat_of_digits (str_nat n) = nat_of_digits (str_nat (n div 10)) * 10 + n mod 10"
      by (subst str_nat.simps) (simp add: nat_of_digits_append, simp add: nat_of_digits_def digit_val_nth)
    then show ?thesis
      using 1 False by simp
  qed
qed

lemma str_nat_inj: "str_nat a = str_nat b \<Longrightarrow> a = b"
  by (metis nat_of_digits_str_nat)

lemma str_nat_hd: "hd (str_nat n) \<noteq> CHR ''-''"
proof -
  have "is_digit (hd (str_nat n))"
    using str_nat_digits [of n] str_nat_not_Nil [of n] by (cases "str_nat n") auto
  then show ?thesis
    by (auto dest: digit_not_point)
qed

lemma str_int_inj:
  assumes "str_int a = str_int b"
  shows "a = b"
proof -
  consider "a < 0" "b < 0" | "a < 0" "\<not> b < 0" | "\<not> a < 0" "b < 0" | "\<not> a < 0" "\<not> b < 0"
    by blast
  then show ?thesis
  proof cases
    case 1
    with assms have "nat (- a) = nat (- b)"
      by (auto simp: str_int_def dest: str_nat_inj)
    with 1 show ?thesis by simp
  next
    case 2
    with assms have "CHR ''-'' # str_nat (nat (- a)) = str_nat (nat b)"
      by (simp add: str_int_def)
    then have "hd (str_nat (nat b)) = CHR ''-''"
      by (metis list.sel(1))
    then show ?thesis using str_nat_hd by blast
  next
    case 3
    with assms have "str_nat (nat a) = CHR ''-'' # str_nat (nat (- b))"
      by (simp add: str_int_def)
    then have "hd (str_nat (nat a)) = CHR ''-''"
      by simp
    then show ?thesis using str_nat_hd by blast
  next
    case 4
    with assms have "nat a = nat b"
      by (auto simp: str_int_def dest: str_nat_inj)
    with 4 show ?thesis by simp
  qed
qed

lemma is_digit_not_space: "is_digit c \<Longrightarrow> c \<noteq> CHR '' ''"
  by (auto simp: is_digit_def)

lemma str_int_no_space: "list_all (\<lambda>c. c \<noteq> CHR '' '') (str_int a)"
proof -
  have "list_all (\<lambda>c. c \<noteq> CHR '' '') (str_nat n)" for n
    using str_nat_digits [of n] by (auto simp: list_all_iff dest: is_digit_not_space)
  then show ?thesis
    by (simp add: str_int_def)
qed

lemma takeWhile_no_space:
  "list_all (\<lambda>c. c \<noteq> CHR '' '') u \<Longrightarrow> takeWhile (\<lambda>c. c \<noteq> CHR '' '') (u @ CHR '' '' # r) = u"
  by (induction u) auto

lemma load_failure_message_inj:
  assumes "load_failure_message a p = load_failure_message b q"
  shows "a = b \<and> p = q"
proof -
  from assms have e: "str_int a @ CHR '' '' # ''- Reason: '' @ p @ '')''
      = str_int b @ CHR '' '' # ''- Reason: '' @ q @ '')''"
    by (simp add: load_failure_message_def)
  have "str_int a = str_int b"
    using arg_cong [OF e, of "takeWhile (\<lambda>c. c \<noteq> CHR '' '')"]
    by (simp only: takeWhile_no_space [OF str_int_no_space])
  with e show ?thesis
    by (simp add: str_int_inj)
qed

lemma fetch_response:
  assumes "symbol \<noteq> []" and "requests_get (url @ symbol) = Inr webpage"
  shows "fetch requests_get symbol url sent =
     (if status_code webpage = 200 then Inr (resp_text webpage)
      else Inl (NetworkError (load_failure_message (status_code webpage) (reason webpage))),
      sent @ [url @ symbol])"
  using assms by (simp add: fetch_def)

text \<open>
  C7. For a symbol that is not empty and a response of the network, \<open>fetch\<close> sends one
  request, to the URL followed by the symbol. With a status other than 200 it raises
  \<open>NetworkError\<close>, whose message spells the status code and the reason phrase so that
  both can be read back from it: no other code or phrase gives the same message. With
  status 200 it returns the body of the response.
\<close>

theorem fetch_status:
  assumes "symbol \<noteq> []" and "requests_get (url @ symbol) = Inr webpage"
  shows "fetch requests_get symbol url sent =
     (if status_code webpage = 200 then Inr (resp_text webpage)
      else Inl (NetworkError (load_failure_message (status_code webpage) (reason webpage))),
      sent @ [url @ symbol])
   \<and> (\<forall>code phrase.
         load_failure_message code phrase
           = load_failure_message (status_code webpage) (reason webpage)
         \<longrightarrow> code = status_code webpage \<and> phrase = reason webpage)"
  using fetch_response [where requests_get = requests_get and symbol = symbol and url = url
      and webpage = webpage and sent = sent] assms load_failure_message_inj
  by blast

lemma example_message:
  "load_failure_message 500 ''Internal Server Error'' =
     ''The page could not be loaded. (Error: 500 - Reason: Internal Server Error)''"
  by code_simp

theorem fetch_status_witness:
  "fetch (\<lambda>u. Inr example_response) ''TSLA'' ''https://httpstat.us/500?'' [] =
     (Inl (NetworkError ''The page could not be loaded. (Error: 500 - Reason: Internal Server Error)''),
      [''https://httpstat.us/500?TSLA''])
   \<and> fetch (\<lambda>u. Inr (example_response\<lparr>status_code := 200\<rparr>)) ''TSLA'' BASE_URL [] =
     (Inr ''<html></html>'', [BASE_URL @ ''TSLA''])"
  using fetch_status [of "''TSLA''" "\<lambda>u. Inr example_response" "''https://httpstat.us/500?''" example_response "[]"]
    fetch_status [of "''TSLA''" "\<lambda>u. Inr (example_response\<lparr>status_code := 200\<rparr>)" BASE_URL
      "example_response\<lparr>status_code := 200\<rparr>" "[]"]
  by (simp add: example_response_def example_message)

section \<open>parse\<close>

lemma parse_not_found:
  assumes "h \<in> set (find_all ''h1'' (BeautifulSoup page))"
    and "lower (text_of h) = ''symbol not found''"
  shows "parse BeautifulSoup page = Inl (InvalidSymbolError ''The symbol could not be found'')"
proof -
  have "''symbol not found'' \<in> set (map (\<lambda>h1. lower (text_of h1)) (find_all ''h1'' (BeautifulSoup page)))"
    using assms by (metis (mono_tags, lifting) image_eqI list.set_map)
  then show ?thesis
    by (simp add: parse_def Let_def)
qed

text \<open>
  C8. When the page has an \<open>h1\<close> heading whose text, lower-cased, is
  \<open>symbol not found\<close>, \<open>parse\<close> raises \<open>InvalidSymbolError\<close> with the message
  \<open>The symbol could not be found\<close> (the specification quotes its last words), whatever
  else the page holds: the forecasts region is not looked for.
\<close>

theorem parse_symbol_not_found:
  assumes "h \<in> set (find_all ''h1'' (BeautifulSoup page))"
    and "lower (text_of h) = ''symbol not found''"
  shows "parse BeautifulSoup page = Inl (InvalidSymbolError ''The symbol could not be found'')
   \<and> suffix ''symbol could not be found''
        (message (InvalidSymbolError ''The symbol could not be found''))"
  using parse_not_found [where h = h and BeautifulSoup = BeautifulSoup and page = page] assms
  by (simp add: suffix_def)

lemma example_soup_h1:
  "find_all ''h1'' example_soup =
     [Tag ''h1'' [] [NavigableString ''Symbol '', Tag ''b'' [] [NavigableString ''Not Found'']]]"
  by code_simp

lemma example_heading:
  "lower (text_of (Tag ''h1'' [] [NavigableString ''Symbol '', Tag ''b'' [] [NavigableString ''Not Found'']]))
     = ''symbol not found''"
  by code_simp

lemma example_soup_region:
  "find_id ''wsod_forecasts'' example_soup = Some (Tag ''div'' [(''id'', ''wsod_forecasts'')] [example_item])"
  by code_simp

theorem parse_symbol_not_found_witness:
  "parse (\<lambda>page. example_soup) ''<html>...</html>'' =
     Inl (InvalidSymbolError ''The symbol could not be found'')
   \<and> find_id ''wsod_forecasts'' example_soup \<noteq> None"
  using parse_symbol_not_found [where BeautifulSoup = "\<lambda>page. example_soup"
      and page = "''<html>...</html>''"
      and h = "Tag ''h1'' [] [NavigableString ''Symbol '', Tag ''b'' [] [NavigableString ''Not Found'']]"]
    example_heading example_soup_h1 example_soup_region
  by simp

section \<open>One exception class for three failures\<close>

text \<open>
  C10. The three failures the specification names InvalidSymbol (the empty symbol),
  SymbolNotFound (the heading of a page) and NoForecastData (the no-data sentence) are
  all raised as \<open>InvalidSymbolError\<close>, one of the three exception classes of the
  program; only their messages tell them apart.
\<close>

theorem invalid_symbol_error_shared:
  assumes "h \<in> set (find_all ''h1'' (BeautifulSoup page))"
    and "lower (text_of h) = ''symbol not found''"
    and "lower (strip_commas (text_of item)) = ''there is no forecast data available.''"
  shows "\<exists>e1 e2 e3.
           fst (fetch requests_get [] url sent) = Inl e1
         \<and> parse BeautifulSoup page = Inl e2
         \<and> get_prices (item # items) = Inl e3
         \<and> class_of e1 = InvalidSymbolErrorClass
         \<and> class_of e2 = InvalidSymbolErrorClass
         \<and> class_of e3 = InvalidSymbolErrorClass
         \<and> message e1 \<noteq> message e2 \<and> message e1 \<noteq> message e3 \<and> message e2 \<noteq> message e3"
  using parse_not_found [where h = h and BeautifulSoup = BeautifulSoup and page = page]
    assms(1,2) get_prices_sentinel [OF assms(3), of items]
  by (simp add: fetch_empty)

theorem invalid_symbol_error_shared_witness:
  "map (map_sum class_of id)
     [fst (fetch (\<lambda>u. Inr example_response) [] BASE_URL []),
      map_sum id (\<lambda>ps. '''') (parse (\<lambda>page. example_soup) ''<html>...</html>''),
      map_sum id (\<lambda>r. '''') (get_prices [no_data_item])]
   = [Inl InvalidSymbolErrorClass, Inl InvalidSymbolErrorClass, Inl InvalidSymbolErrorClass]"
  using invalid_symbol_error_shared [where BeautifulSoup = "\<lambda>page. example_soup"
      and page = "''<html>...</html>''"
      and h = "Tag ''h1'' [] [NavigableString ''Symbol '', Tag ''b'' [] [NavigableString ''Not Found'']]"
      and item = no_data_item and items = "[]" and requests_get = "\<lambda>u. Inr example_response"
      and url = BASE_URL and sent = "[]"]
    example_heading example_soup_h1 no_data_sentinel
  by auto

end
